theory Spec2Isabelle
  imports Main "HOL-Library.Multiset"
begin

section \<open>The expense router of spendtrack-api (src/router/expenses.mjs)\<close>

text \<open>
  The router is embedded function by function. Values of the JavaScript run time that
  the handlers compute with are modelled first: Numbers (restricted to the integer-valued
  ones), Date objects and their ISO rendering, plain objects with their key order, and
  \<open>Array.prototype.sort\<close>. The logger calls write to an external sink, influence neither
  the response nor the store, and are left out.
\<close>

subsection \<open>Numbers\<close>

text \<open>
  A JavaScript Number is an IEEE-754 binary64 value. The model carries the integer-valued
  Numbers as \<open>int\<close>. Every integer of magnitude below \<open>2 ^ 53\<close> is a Number; a sum or
  difference of two integer-valued Numbers is the exact result rounded to the nearest
  Number, ties to the even significand. \<open>shift53 a\<close> is the number of low bits that do
  not fit into the 53-bit significand of \<open>a\<close>. Overflow to Infinity (magnitudes from
  \<open>2 ^ 1024\<close>) is outside the model.
\<close>

function shift53 :: "int \<Rightarrow> nat" where
  "shift53 a = (if a < 2 ^ 53 then 0 else Suc (shift53 (a div 2)))"
  by pat_completeness auto
termination
  by (relation "measure nat") auto

declare shift53.simps [simp del]

definition to_Number :: "int \<Rightarrow> int" where
  "to_Number x =
     (let a = \<bar>x\<bar>; e = shift53 a; p = 2 ^ e; q = a div p; r = a mod p;
          q' = (if p < 2 * r \<or> (2 * r = p \<and> odd q) then q + 1 else q)
      in sgn x * (q' * p))"

definition js_add :: "int \<Rightarrow> int \<Rightarrow> int" where
  "js_add a b = to_Number (a + b)"

definition js_sub :: "int \<Rightarrow> int \<Rightarrow> int" where
  "js_sub a b = to_Number (a - b)"

subsection \<open>Dates\<close>

text \<open>
  A valid Date is its time value, the milliseconds since 1970-01-01T00:00:00Z; an
  Invalid Date is \<open>None\<close>. The field extraction follows the ECMAScript abstract
  operations \<open>Day\<close>, \<open>YearFromTime\<close>, \<open>MonthFromTime\<close>, \<open>DateFromTime\<close>, \<open>MakeDay\<close>,
  \<open>MakeDate\<close> and \<open>TimeClip\<close> on the proleptic Gregorian calendar. The local time zone
  is a fixed offset \<open>tz\<close> in minutes east of UTC: a zone with daylight saving time,
  whose offset depends on the date, is outside the model.
\<close>

type_synonym jsdate = "int option"

definition msPerDay :: int where
  "msPerDay = 86400000"

definition Day :: "int \<Rightarrow> int" where
  "Day t = t div msPerDay"

definition TimeWithinDay :: "int \<Rightarrow> int" where
  "TimeWithinDay t = t mod msPerDay"

text \<open>Year, month (1 to 12) and day of the month of a day number.\<close>

definition civil_from_days :: "int \<Rightarrow> int \<times> int \<times> int" where
  "civil_from_days z0 =
     (let z = z0 + 719468;
          era = z div 146097;
          doe = z - era * 146097;
          yoe = (doe - doe div 1460 + doe div 36524 - doe div 146096) div 365;
          y = yoe + era * 400;
          doy = doe - (365 * yoe + yoe div 4 - yoe div 100);
          mp = (5 * doy + 2) div 153;
          d = doy - (153 * mp + 2) div 5 + 1;
          m = (if mp < 10 then mp + 3 else mp - 9)
      in (if m \<le> 2 then y + 1 else y, m, d))"

definition days_from_civil :: "int \<Rightarrow> int \<Rightarrow> int \<Rightarrow> int" where
  "days_from_civil y0 m d =
     (let y = (if m \<le> 2 then y0 - 1 else y0);
          era = y div 400;
          yoe = y - era * 400;
          doy = (153 * (if 2 < m then m - 3 else m + 9) + 2) div 5 + d - 1;
          doe = yoe * 365 + yoe div 4 - yoe div 100 + doy
      in era * 146097 + doe - 719468)"

definition YearFromTime :: "int \<Rightarrow> int" where
  "YearFromTime t = fst (civil_from_days (Day t))"

text \<open>\<open>MonthFromTime\<close> counts from 0 (January).\<close>

definition MonthFromTime :: "int \<Rightarrow> int" where
  "MonthFromTime t = fst (snd (civil_from_days (Day t))) - 1"

definition DateFromTime :: "int \<Rightarrow> int" where
  "DateFromTime t = snd (snd (civil_from_days (Day t)))"

definition MakeDay :: "int \<Rightarrow> int \<Rightarrow> int \<Rightarrow> int" where
  "MakeDay year month date =
     (let ym = year + month div 12; mn = month mod 12
      in days_from_civil ym (mn + 1) 1 + date - 1)"

definition TimeClip :: "int \<Rightarrow> jsdate" where
  "TimeClip t = (if 8640000000000000 < \<bar>t\<bar> then None else Some t)"

definition LocalTime :: "int \<Rightarrow> int \<Rightarrow> int" where
  "LocalTime tz t = t + tz * 60000"

text \<open>\<open>now.getFullYear()\<close> and \<open>now.getMonth()\<close>: fields of the local time.\<close>

definition getFullYear :: "int \<Rightarrow> int \<Rightarrow> int" where
  "getFullYear tz t = YearFromTime (LocalTime tz t)"

definition getMonth :: "int \<Rightarrow> int \<Rightarrow> int" where
  "getMonth tz t = MonthFromTime (LocalTime tz t)"

text \<open>
  \<open>new Date(year, month, date)\<close>: local midnight of the given day. A year from 0 to 99
  means 1900 + year; a month outside 0 to 11 carries into the year; the month argument
  \<open>None\<close> is NaN and gives an Invalid Date.
\<close>

definition new_Date :: "int \<Rightarrow> int \<Rightarrow> int option \<Rightarrow> int \<Rightarrow> jsdate" where
  "new_Date tz year month date =
     (case month of
        None \<Rightarrow> None
      | Some m \<Rightarrow>
          (let yr = (if 0 \<le> year \<and> year \<le> 99 then 1900 + year else year)
           in TimeClip (MakeDay yr m date * msPerDay - tz * 60000)))"

text \<open>Decimal rendering with a fixed number of digits.\<close>

definition digit :: "int \<Rightarrow> char" where
  "digit n = ''0123456789'' ! nat (n mod 10)"

definition pad2 :: "int \<Rightarrow> string" where
  "pad2 n = [digit (n div 10), digit n]"

definition pad3 :: "int \<Rightarrow> string" where
  "pad3 n = digit (n div 100) # pad2 n"

definition pad4 :: "int \<Rightarrow> string" where
  "pad4 n = digit (n div 1000) # pad3 n"

definition pad6 :: "int \<Rightarrow> string" where
  "pad6 n = digit (n div 100000) # digit (n div 10000) # pad4 n"

definition year_string :: "int \<Rightarrow> string" where
  "year_string y =
     (if 0 \<le> y \<and> y \<le> 9999 then pad4 y
      else (if y < 0 then ''-'' else ''+'') @ pad6 \<bar>y\<bar>)"

text \<open>\<open>Date.prototype.toISOString\<close> of a valid Date: \<open>YYYY-MM-DDTHH:mm:ss.sssZ\<close> in UTC.\<close>

definition toISOString :: "int \<Rightarrow> string" where
  "toISOString t =
     (let (y, m, d) = civil_from_days (Day t); w = TimeWithinDay t
      in year_string y @ ''-'' @ pad2 m @ ''-'' @ pad2 d @ ''T''
         @ pad2 (w div 3600000) @ '':'' @ pad2 (w div 60000 mod 60) @ '':''
         @ pad2 (w div 1000 mod 60) @ ''.'' @ pad3 (w mod 1000) @ ''Z'')"

text \<open>\<open>s.split('T')[0]\<close>: the part of \<open>s\<close> before the first \<open>T\<close>.\<close>

definition split_T_0 :: "string \<Rightarrow> string" where
  "split_T_0 s = takeWhile (\<lambda>c. c \<noteq> CHR ''T'') s"

subsection \<open>Plain objects and arrays\<close>

text \<open>
  A plain object is the list of its own properties in creation order. Reading a key that
  is absent gives \<open>undefined\<close> (\<open>None\<close>); assigning to a new key appends it, assigning
  to an old one keeps its place. \<open>Object.keys\<close> lists the keys that are array indices
  (canonical decimal numerals below \<open>2 ^ 32 - 1\<close>) first, in ascending numeric order, and
  then all other keys in creation order.
\<close>

type_synonym 'v obj = "(string \<times> 'v) list"

definition obj_get :: "'v obj \<Rightarrow> string \<Rightarrow> 'v option" where
  "obj_get obj k = map_of obj k"

definition obj_set :: "'v obj \<Rightarrow> string \<Rightarrow> 'v \<Rightarrow> 'v obj" where
  "obj_set obj k v =
     (if k \<in> set (map fst obj)
      then map (\<lambda>(k', v'). if k' = k then (k', v) else (k', v')) obj
      else obj @ [(k, v)])"

text \<open>Mutation of the object stored under a key: \<open>obj[k].field = ...\<close>.\<close>

definition obj_modify :: "'v obj \<Rightarrow> string \<Rightarrow> ('v \<Rightarrow> 'v) \<Rightarrow> 'v obj" where
  "obj_modify obj k f = map (\<lambda>(k', v'). if k' = k then (k', f v') else (k', v')) obj"

definition index_value :: "string \<Rightarrow> int" where
  "index_value s = foldl (\<lambda>n c. 10 * n + (of_char c - 48)) 0 s"

definition is_array_index :: "string \<Rightarrow> bool" where
  "is_array_index s \<longleftrightarrow>
     s \<noteq> [] \<and> (\<forall>c \<in> set s. c \<in> set ''0123456789'') \<and>
     (1 < length s \<longrightarrow> hd s \<noteq> CHR ''0'') \<and> index_value s < 2 ^ 32 - 1"

definition Object_keys :: "'v obj \<Rightarrow> string list" where
  "Object_keys obj =
     sort_key index_value (filter is_array_index (map fst obj))
     @ filter (\<lambda>k. \<not> is_array_index k) (map fst obj)"

text \<open>
  \<open>Array.prototype.sort(cmp)\<close> is stable: with a consistent comparator the result is
  ordered by \<open>cmp\<close> and elements that compare equal keep their relative order. An element
  is placed in front of the first later element it does not compare greater than.
\<close>

fun insert_by :: "('a \<Rightarrow> 'a \<Rightarrow> int) \<Rightarrow> 'a \<Rightarrow> 'a list \<Rightarrow> 'a list" where
  "insert_by cmp x [] = [x]"
| "insert_by cmp x (y # ys) = (if cmp x y \<le> 0 then x # y # ys else y # insert_by cmp x ys)"

definition Array_sort :: "('a \<Rightarrow> 'a \<Rightarrow> int) \<Rightarrow> 'a list \<Rightarrow> 'a list" where
  "Array_sort cmp xs = foldr (insert_by cmp) xs []"

subsection \<open>Documents\<close>

text \<open>
  An ObjectId is its hexadecimal string. An expense document carries the paths the
  router reads and writes. \<open>created_by\<close> is what a query reads at that path of an
  expense: \<open>None\<close> when the path is null or missing, which is what the filter
  \<open>{ created_by: null }\<close> matches. The path \<open>_id\<close> is named \<open>expense_id\<close>.
  \<open>date_of_expense\<close> is a valid Date, and \<open>amount\<close> an integer-valued Number.
\<close>

type_synonym oid = string

record expense =
  expense_id :: oid
  user_id :: oid
  category_id :: oid
  amount :: int
  expense_name :: string
  date_of_expense :: int
  created_by :: "oid option"
  updated_at :: int

subsection \<open>The day grouping of \<open>router.get('/')\<close>\<close>

text \<open>
  The accumulator of the \<open>reduce\<close> call maps a day key to the records of the day and
  their running total; the response entry of a day adds the key.
\<close>

record group =
  data_expenses :: "expense list"
  total_expense :: int

record day_entry = group +
  date_of_expenses :: string

text \<open>\<open>expense.date_of_expense.toISOString().split('T')[0]\<close>\<close>

definition day_key :: "expense \<Rightarrow> string" where
  "day_key expense = split_T_0 (toISOString (date_of_expense expense))"

text \<open>
  The callback of \<open>expenses.reduce\<close>. A day key names no property of
  \<open>Object.prototype\<close>, so \<open>acc[date]\<close> is \<open>undefined\<close> exactly when \<open>date\<close> is not
  yet a key of the accumulator.
\<close>

definition group_step :: "group obj \<Rightarrow> expense \<Rightarrow> group obj" where
  "group_step acc expense =
     (let date = day_key expense;
          acc1 = (case obj_get acc date of
                    None \<Rightarrow> obj_set acc date \<lparr>data_expenses = [], total_expense = 0\<rparr>
                  | Some _ \<Rightarrow> acc);
          acc2 = obj_modify acc1 date (\<lambda>g. g\<lparr>data_expenses := data_expenses g @ [expense]\<rparr>)
      in obj_modify acc2 date
           (\<lambda>g. g\<lparr>total_expense := js_add (total_expense g) (amount expense)\<rparr>))"

definition groupedExpenses :: "expense list \<Rightarrow> group obj" where
  "groupedExpenses expenses = foldl group_step [] expenses"

text \<open>The comparator \<open>(a, b) => new Date(b.date_of_expense) - new Date(a.date_of_expense)\<close>.\<close>

definition by_date_desc :: "expense \<Rightarrow> expense \<Rightarrow> int" where
  "by_date_desc a b = js_sub (date_of_expense b) (date_of_expense a)"

text \<open>\<open>Object.keys(groupedExpenses).map(date => ...)\<close>\<close>

definition day_entries :: "group obj \<Rightarrow> day_entry list" where
  "day_entries grouped =
     concat (map (\<lambda>date. case obj_get grouped date of
                           None \<Rightarrow> []
                         | Some g \<Rightarrow>
                             [\<lparr>data_expenses = Array_sort by_date_desc (data_expenses g),
                               total_expense = total_expense g,
                               date_of_expenses = date\<rparr>])
                 (Object_keys grouped))"

definition aggregate :: "expense list \<Rightarrow> day_entry list" where
  "aggregate expenses = day_entries (groupedExpenses expenses)"

subsection \<open>The store behind the Mongoose models\<close>

text \<open>
  The store holds the expense and the category collection. \<open>failing\<close> says that the
  store rejects the operations of the request at hand (the unexpected store failure of
  the handlers' \<open>catch\<close> branches). Every operation sent to the store is appended to
  \<open>journal\<close>, so that what a handler asked of the store can be read off the state it
  returns; a query that Mongoose's cast rejects is not sent.
  Identifiers that reach a filter from the route or the session are well-formed ObjectIds.
\<close>

datatype error = CastError | StoreError

datatype category = Category (category_oid: oid) (category_created_by: "oid option")

datatype bound = Gte jsdate | Lte jsdate | Lt jsdate

datatype order = Asc | Desc

datatype store_op =
    Op_find oid "bound list" order
  | Op_findOne oid oid
  | Op_category_findOne oid oid
  | Op_findOneAndUpdate oid oid
  | Op_findOneAndDelete oid oid

record db =
  expense_docs :: "expense list"
  category_docs :: "category list"
  failing :: bool
  journal :: "store_op list"

definition record_op :: "store_op \<Rightarrow> db \<Rightarrow> db" where
  "record_op op d = d\<lparr>journal := journal d @ [op]\<rparr>"

fun bound_date :: "bound \<Rightarrow> jsdate" where
  "bound_date (Gte t) = t"
| "bound_date (Lte t) = t"
| "bound_date (Lt t) = t"

fun bound_holds :: "bound \<Rightarrow> int \<Rightarrow> bool" where
  "bound_holds (Gte t) x = (case t of None \<Rightarrow> False | Some b \<Rightarrow> b \<le> x)"
| "bound_holds (Lte t) x = (case t of None \<Rightarrow> False | Some b \<Rightarrow> x \<le> b)"
| "bound_holds (Lt t) x = (case t of None \<Rightarrow> False | Some b \<Rightarrow> x < b)"

fun sort_by_date :: "order \<Rightarrow> expense list \<Rightarrow> expense list" where
  "sort_by_date Asc es = sort_key date_of_expense es"
| "sort_by_date Desc es = sort_key (\<lambda>e. - date_of_expense e) es"

text \<open>
  \<open>Expense.find({ user_id, date_of_expense: {...} }).populate('category_id').sort(...)\<close>.
  An Invalid Date in the filter fails Mongoose's cast. Records with equal dates come in
  collection order. \<open>populate\<close> only replaces the category reference by the category
  document in the reply and is not modelled.
\<close>

definition Expense_find ::
  "db \<Rightarrow> oid \<Rightarrow> bound list \<Rightarrow> order \<Rightarrow> (error + expense list) \<times> db" where
  "Expense_find d user bounds ord =
     (let d' = record_op (Op_find user bounds ord) d
      in if \<exists>b \<in> set bounds. bound_date b = None then (Inl CastError, d)
         else if failing d then (Inl StoreError, d')
         else (Inr (sort_by_date ord
                      (filter (\<lambda>e. user_id e = user \<and>
                                    (\<forall>b \<in> set bounds. bound_holds b (date_of_expense e)))
                         (expense_docs d))), d'))"

text \<open>\<open>Expense.findOne({ _id: id, user_id: user })\<close>\<close>

definition Expense_findOne :: "db \<Rightarrow> oid \<Rightarrow> oid \<Rightarrow> (error + expense option) \<times> db" where
  "Expense_findOne d eid user =
     (let d' = record_op (Op_findOne eid user) d
      in if failing d then (Inl StoreError, d')
         else (Inr (find (\<lambda>e. expense_id e = eid \<and> user_id e = user) (expense_docs d)), d'))"

text \<open>
  \<open>Category.findOne({ _id: cid, $or: [{ created_by: user }, { created_by: null }] })\<close>
\<close>

definition Category_findOne :: "db \<Rightarrow> oid \<Rightarrow> oid \<Rightarrow> (error + category option) \<times> db" where
  "Category_findOne d cid user =
     (let d' = record_op (Op_category_findOne cid user) d
      in if failing d then (Inl StoreError, d')
         else (Inr (find (\<lambda>c. category_oid c = cid \<and>
                              (category_created_by c = Some user \<or> category_created_by c = None))
                      (category_docs d)), d'))"

text \<open>The first element that satisfies \<open>P\<close> is replaced, or removed.\<close>

fun replace_first :: "('a \<Rightarrow> bool) \<Rightarrow> ('a \<Rightarrow> 'a) \<Rightarrow> 'a list \<Rightarrow> 'a list" where
  "replace_first P f [] = []"
| "replace_first P f (x # xs) = (if P x then f x # xs else x # replace_first P f xs)"

fun remove_first :: "('a \<Rightarrow> bool) \<Rightarrow> 'a list \<Rightarrow> 'a list" where
  "remove_first P [] = []"
| "remove_first P (x # xs) = (if P x then xs else x # remove_first P xs)"

text \<open>
  The filter of the update,
  \<open>{ _id: id, $or: [{ created_by: user }, { created_by: null }] }\<close>, applied to an expense.
\<close>

definition update_filter :: "oid \<Rightarrow> oid \<Rightarrow> expense \<Rightarrow> bool" where
  "update_filter eid user e \<longleftrightarrow>
     expense_id e = eid \<and> (created_by e = Some user \<or> created_by e = None)"

text \<open>
  \<open>Expense.findOneAndUpdate(filter, data, { new: true, runValidators: true })\<close>. The
  update \<open>upd\<close> is what Mongoose makes of \<open>data\<close>: an error when casting or a validator
  rejects it, else the change to the matched document. The updated document is returned.
\<close>

definition Expense_findOneAndUpdate ::
  "db \<Rightarrow> oid \<Rightarrow> oid \<Rightarrow> (error + (expense \<Rightarrow> expense)) \<Rightarrow> (error + expense option) \<times> db" where
  "Expense_findOneAndUpdate d eid user upd =
     (let d' = record_op (Op_findOneAndUpdate eid user) d
      in case upd of
           Inl err \<Rightarrow> (Inl err, d)
         | Inr f \<Rightarrow>
             if failing d then (Inl StoreError, d')
             else (Inr (map_option f (find (update_filter eid user) (expense_docs d))),
                   d'\<lparr>expense_docs := replace_first (update_filter eid user) f (expense_docs d)\<rparr>))"

text \<open>\<open>Expense.findOneAndDelete({ _id: id, user_id: user })\<close>\<close>

definition Expense_findOneAndDelete ::
  "db \<Rightarrow> oid \<Rightarrow> oid \<Rightarrow> (error + expense option) \<times> db" where
  "Expense_findOneAndDelete d eid user =
     (let d' = record_op (Op_findOneAndDelete eid user) d
      in if failing d then (Inl StoreError, d')
         else (Inr (find (\<lambda>e. expense_id e = eid \<and> user_id e = user) (expense_docs d)),
               d'\<lparr>expense_docs := remove_first (\<lambda>e. expense_id e = eid \<and> user_id e = user)
                                  (expense_docs d)\<rparr>))"

subsection \<open>Requests and responses\<close>

text \<open>
  A value of a parsed request body; \<open>JObject\<close> stands for any array or object. The body
  maps a key to its value, \<open>None\<close> where the key is absent (\<open>undefined\<close>). \<open>falsy v\<close> is
  JavaScript's \<open>!v\<close>.
\<close>

datatype jsval = JNull | JBool bool | JNum int | JNaN | JStr string | JDate int | JObject

type_synonym jsobject = "string \<Rightarrow> jsval option"

fun falsy :: "jsval option \<Rightarrow> bool" where
  "falsy None = True"
| "falsy (Some JNull) = True"
| "falsy (Some (JBool b)) = (\<not> b)"
| "falsy (Some (JNum n)) = (n = 0)"
| "falsy (Some JNaN) = True"
| "falsy (Some (JStr s)) = (s = [])"
| "falsy (Some (JDate t)) = False"
| "falsy (Some JObject) = False"

text \<open>
  The JSON bodies of the replies: \<open>{ message, data }\<close> with the day entries, with a list
  of expenses or with one expense, \<open>{ message }\<close>, \<open>{ message, error }\<close> and \<open>{ errors }\<close>.
\<close>

datatype payload =
    Grouped string "day_entry list"
  | Listed string "expense list"
  | Single string expense
  | Message string
  | Message_error string error
  | Errors "string list"

record response =
  status :: nat
  body :: payload

text \<open>
  The parts of Mongoose that depend on the schema files, which are not in src: the cast
  of a value to an ObjectId (\<open>None\<close> is a CastError), and the cast and validation of an
  update document.
\<close>

record mongoose =
  castObjectId :: "jsval \<Rightarrow> oid option"
  castUpdate :: "jsobject \<Rightarrow> error + (expense \<Rightarrow> expense)"

subsection \<open>The module state\<close>

text \<open>
  \<open>const { startOfMonth, endOfMonth } = getCurrentMonthDateRange()\<close> is evaluated when
  the module is loaded; \<open>now\<close> is the clock reading of \<open>new Date()\<close> at that moment.
\<close>

record month_range =
  startOfMonth :: jsdate
  endOfMonth :: jsdate

definition getCurrentMonthDateRange :: "int \<Rightarrow> int \<Rightarrow> month_range" where
  "getCurrentMonthDateRange tz now =
     \<lparr>startOfMonth = new_Date tz (getFullYear tz now) (Some (getMonth tz now)) 1,
      endOfMonth = new_Date tz (getFullYear tz now) (Some (getMonth tz now + 1)) 1\<rparr>"

subsection \<open>The handlers\<close>

text \<open>
  A handler takes the store and what it reads from the request (\<open>req.user._id\<close>, the
  route parameters, the body, the result of the validation middleware) and returns the
  reply it sends, or the error with which it rejects without a reply, and the store.
\<close>

text \<open>\<open>router.get('/')\<close>\<close>

definition get_root :: "month_range \<Rightarrow> db \<Rightarrow> oid \<Rightarrow> (error + response) \<times> db" where
  "get_root window d user =
     (case Expense_find d user [Gte (startOfMonth window), Lte (endOfMonth window)] Desc of
        (Inl error, d') \<Rightarrow>
          (Inr \<lparr>status = 500, body = Message_error ''error get all expenses'' error\<rparr>, d')
      | (Inr expenses, d') \<Rightarrow>
          if length expenses = 0
          then (Inr \<lparr>status = 404, body = Listed ''expense not found'' []\<rparr>, d')
          else (Inr \<lparr>status = 200,
                      body = Grouped ''success get all expenses'' (aggregate expenses)\<rparr>, d'))"

text \<open>
  \<open>router.get('/month/:month')\<close>; \<open>month\<close> is \<open>parseInt(req.params.month)\<close>, \<open>None\<close>
  for NaN.
\<close>

definition get_month ::
  "int \<Rightarrow> int \<Rightarrow> db \<Rightarrow> oid \<Rightarrow> int option \<Rightarrow> (error + response) \<times> db" where
  "get_month tz now d user month =
     (let year = getFullYear tz now;
          startOfMonth = new_Date tz year (map_option (\<lambda>m. js_sub m 1) month) 1;
          endOfMonth = new_Date tz year month 1
      in case Expense_find d user [Gte startOfMonth, Lt endOfMonth] Asc of
           (Inl error, d') \<Rightarrow>
             (Inr \<lparr>status = 500, body = Message ''error get all expenses''\<rparr>, d')
         | (Inr expenses, d') \<Rightarrow>
             if length expenses = 0
             then (Inr \<lparr>status = 404, body = Listed ''expense not found'' []\<rparr>, d')
             else (Inr \<lparr>status = 200, body = Listed ''success get all expenses'' expenses\<rparr>,
                   d'))"

text \<open>\<open>router.get('/:id')\<close>\<close>

definition get_by_id :: "db \<Rightarrow> oid \<Rightarrow> oid \<Rightarrow> (error + response) \<times> db" where
  "get_by_id d user eid =
     (case Expense_findOne d eid user of
        (Inl error, d') \<Rightarrow>
          (Inr \<lparr>status = 500, body = Message ''error get expense by id''\<rparr>, d')
      | (Inr None, d') \<Rightarrow>
          (Inr \<lparr>status = 404, body = Listed ''expense not found'' []\<rparr>, d')
      | (Inr (Some expense), d') \<Rightarrow>
          (Inr \<lparr>status = 200, body = Single ''success get expense by id'' expense\<rparr>, d'))"

text \<open>
  \<open>router.patch('/:id')\<close>; \<open>errors\<close> is the list in \<open>validationResult(req)\<close>, shown
  in the reply as \<open>formatValidationErrors\<close> renders it, and \<open>now\<close> the clock reading of
  \<open>updated_at: new Date()\<close>. The category lookup stands outside the \<open>try\<close> block: when
  it throws, the handler rejects.
\<close>

definition patch_by_id ::
  "mongoose \<Rightarrow> int \<Rightarrow> db \<Rightarrow> oid \<Rightarrow> oid \<Rightarrow> string list \<Rightarrow> jsobject \<Rightarrow> (error + response) \<times> db"
  where
  "patch_by_id mg now d user eid errors req_body =
     (if errors \<noteq> [] then (Inr \<lparr>status = 400, body = Errors errors\<rparr>, d)
      else if falsy (req_body ''amount'') \<and> falsy (req_body ''expense_name'') \<and>
              falsy (req_body ''date_of_expense'') \<and> falsy (req_body ''category_id'')
      then (Inr \<lparr>status = 400, body = Message ''at least one field must be filled''\<rparr>, d)
      else
        let checked =
          (case req_body ''category_id'' of
             None \<Rightarrow> (Inr True, d)
           | Some v \<Rightarrow>
               if falsy (Some v) then (Inr True, d)
               else (case castObjectId mg v of
                       None \<Rightarrow> (Inl CastError, d)
                     | Some cid \<Rightarrow>
                         (case Category_findOne d cid user of
                            (Inl error, d') \<Rightarrow> (Inl error, d')
                          | (Inr isCategoryExist, d') \<Rightarrow> (Inr (isCategoryExist \<noteq> None), d'))))
        in case checked of
             (Inl error, d1) \<Rightarrow> (Inl error, d1)
           | (Inr False, d1) \<Rightarrow>
               (Inr \<lparr>status = 400, body = Message ''category not found''\<rparr>, d1)
           | (Inr True, d1) \<Rightarrow>
               (let data = req_body(''updated_at'' \<mapsto> JDate now)
                in case Expense_findOneAndUpdate d1 eid user (castUpdate mg data) of
                     (Inl error, d2) \<Rightarrow>
                       (Inr \<lparr>status = 500, body = Message ''error update expense''\<rparr>, d2)
                   | (Inr None, d2) \<Rightarrow>
                       (Inr \<lparr>status = 404, body = Message ''expense not found''\<rparr>, d2)
                   | (Inr (Some expense), d2) \<Rightarrow>
                       (Inr \<lparr>status = 200, body = Single ''success update expense'' expense\<rparr>,
                        d2)))"

text \<open>\<open>router.delete('/:id')\<close>\<close>

definition delete_by_id :: "db \<Rightarrow> oid \<Rightarrow> oid \<Rightarrow> (error + response) \<times> db" where
  "delete_by_id d user eid =
     (case Expense_findOneAndDelete d eid user of
        (Inl error, d') \<Rightarrow>
          (Inr \<lparr>status = 500, body = Message ''error delete expense''\<rparr>, d')
      | (Inr None, d') \<Rightarrow>
          (Inr \<lparr>status = 404, body = Message ''expense not found''\<rparr>, d')
      | (Inr (Some deletedExpense), d') \<Rightarrow>
          (Inr \<lparr>status = 200, body = Single ''success delete expense'' deletedExpense\<rparr>, d'))"

subsection \<open>The running process\<close>

text \<open>
  The process loads the module once, at clock reading \<open>t0\<close>, and then serves requests;
  each request comes with the clock reading at which it is served. The constants of the
  module are passed unchanged to every request.
\<close>

datatype request =
    GET_root oid
  | GET_month oid "int option"
  | GET_by_id oid oid
  | PATCH_by_id oid oid "string list" jsobject
  | DELETE_by_id oid oid

fun serve ::
  "int \<Rightarrow> mongoose \<Rightarrow> month_range \<Rightarrow> int \<Rightarrow> request \<Rightarrow> db \<Rightarrow> (error + response) \<times> db" where
  "serve tz mg window now (GET_root user) d = get_root window d user"
| "serve tz mg window now (GET_month user month) d = get_month tz now d user month"
| "serve tz mg window now (GET_by_id user eid) d = get_by_id d user eid"
| "serve tz mg window now (PATCH_by_id user eid errors req_body) d =
     patch_by_id mg now d user eid errors req_body"
| "serve tz mg window now (DELETE_by_id user eid) d = delete_by_id d user eid"

fun serve_all ::
  "int \<Rightarrow> mongoose \<Rightarrow> month_range \<Rightarrow> (int \<times> request) list \<Rightarrow> db \<Rightarrow>
   (error + response) list \<times> db" where
  "serve_all tz mg window [] d = ([], d)"
| "serve_all tz mg window ((now, r) # rs) d =
     (case serve tz mg window now r d of
        (reply, d') \<Rightarrow>
          (case serve_all tz mg window rs d' of (replies, d'') \<Rightarrow> (reply # replies, d'')))"

definition process ::
  "int \<Rightarrow> mongoose \<Rightarrow> int \<Rightarrow> (int \<times> request) list \<Rightarrow> db \<Rightarrow> (error + response) list \<times> db"
  where
  "process tz mg t0 rs d = serve_all tz mg (getCurrentMonthDateRange tz t0) rs d"

subsection \<open>Notions used to state the properties\<close>

text \<open>The records of a day, in input order, and the place of the first of them.\<close>

definition day_records :: "string \<Rightarrow> expense list \<Rightarrow> expense list" where
  "day_records k es = filter (\<lambda>e. day_key e = k) es"

definition first_pos :: "string \<Rightarrow> expense list \<Rightarrow> nat" where
  "first_pos k es = length (takeWhile (\<lambda>e. day_key e \<noteq> k) es)"

text \<open>The distinct elements of a list in the order of their first occurrence.\<close>

definition first_seen :: "'a list \<Rightarrow> 'a list" where
  "first_seen xs = rev (remdups (rev xs))"

text \<open>The expense records that a reply carries.\<close>

fun payload_expenses :: "payload \<Rightarrow> expense list" where
  "payload_expenses (Grouped m entries) = concat (map data_expenses entries)"
| "payload_expenses (Listed m es) = es"
| "payload_expenses (Single m e) = [e]"
| "payload_expenses (Message m) = []"
| "payload_expenses (Message_error m err) = []"
| "payload_expenses (Errors errs) = []"

text \<open>The fields of an expense that a PATCH request may change.\<close>

definition mutable_fields :: "string list" where
  "mutable_fields = [''amount'', ''expense_name'', ''date_of_expense'', ''category_id'']"

subsection \<open>Sample data\<close>

text \<open>
  An expense of user \<open>u1\<close> with the given identifier, amount and date, and the three
  records of the example of the specification: 2024-03-05T10:00Z with amount 20,
  2024-03-05T18:00Z with amount 30 and 2024-03-06T09:00Z with amount 5.
\<close>

definition sample_expense :: "oid \<Rightarrow> int \<Rightarrow> int \<Rightarrow> expense" where
  "sample_expense eid a t =
     \<lparr>expense_id = eid, user_id = ''u1'', category_id = ''c1'', amount = a,
      expense_name = ''lunch'', date_of_expense = t, created_by = None, updated_at = t\<rparr>"

definition march5_10h :: expense where
  "march5_10h = sample_expense ''e1'' 20 1709632800000"

definition march5_18h :: expense where
  "march5_18h = sample_expense ''e2'' 30 1709661600000"

definition march6_09h :: expense where
  "march6_09h = sample_expense ''e3'' 5 1709715600000"

text \<open>
  Three records of 2024-03-05 with the amounts \<open>2 ^ 53\<close>, 1 and 1.
\<close>

definition big_expense :: expense where
  "big_expense = sample_expense ''e4'' 9007199254740992 1709632800000"

definition small_expense_a :: expense where
  "small_expense_a = sample_expense ''e5'' 1 1709636400000"

definition small_expense_b :: expense where
  "small_expense_b = sample_expense ''e6'' 1 1709640000000"

text \<open>
  A store without failure that holds the given documents, and a sample of the
  schema-dependent casts: a string is taken as an ObjectId, and an update that sets a
  numeric \<open>amount\<close> next to \<open>updated_at\<close> is accepted.
\<close>

definition sample_store :: "expense list \<Rightarrow> category list \<Rightarrow> db" where
  "sample_store es cs = \<lparr>expense_docs = es, category_docs = cs, failing = False, journal = []\<rparr>"

definition sample_mongoose :: mongoose where
  "sample_mongoose =
     \<lparr>castObjectId = (\<lambda>v. case v of JStr s \<Rightarrow> Some s | _ \<Rightarrow> None),
      castUpdate = (\<lambda>data. case (data ''amount'', data ''updated_at'') of
                              (Some (JNum n), Some (JDate t)) \<Rightarrow>
                                Inr (\<lambda>e. e\<lparr>amount := n, updated_at := t\<rparr>)
                            | _ \<Rightarrow> Inl CastError)\<rparr>"

text \<open>
  Clock readings: 2024-03-15T12:00Z and 2024-05-15T12:00Z. An expense of user \<open>u1\<close>
  dated 2024-04-01T00:00:00.000Z, and one dated 2024-05-10T10:00Z.
\<close>

definition mid_march :: int where
  "mid_march = 1710504000000"

definition mid_may :: int where
  "mid_may = 1715774400000"

definition april1_00h :: expense where
  "april1_00h = sample_expense ''e7'' 12 1711929600000"

definition may10_10h :: expense where
  "may10_10h = sample_expense ''e8'' 7 1715335200000"

text \<open>
  An expense of user \<open>u2\<close> in a category that \<open>u2\<close> owns, as \<open>router.post('/')\<close>
  stores it: the owner is bound to \<open>user_id\<close>, and there is no \<open>created_by\<close>.
\<close>

definition foreign_expense :: expense where
  "foreign_expense =
     \<lparr>expense_id = ''e9'', user_id = ''u2'', category_id = ''c2'', amount = 40,
      expense_name = ''rent'', date_of_expense = 1709632800000, created_by = None,
      updated_at = 1709632800000\<rparr>"

definition foreign_store :: db where
  "foreign_store = sample_store [foreign_expense] [Category ''c2'' (Some ''u2'')]"

section \<open>Properties\<close>

subsection \<open>Numbers\<close>

text \<open>Integers of magnitude up to \<open>2 ^ 53\<close> are Numbers, and rounding keeps the sign.\<close>

lemma shift53_small: "a < 2 ^ 53 \<Longrightarrow> shift53 a = 0"
  by (subst shift53.simps) simp

lemma shift53_pos_quotient: "0 < a \<Longrightarrow> 0 < a div 2 ^ shift53 a"
proof (induction a rule: shift53.induct)
  case (1 a)
  show ?case
  proof (cases "a < 2 ^ 53")
    case True
    with "1.prems" show ?thesis by (simp add: shift53_small)
  next
    case False
    then have "0 < a div 2" by simp
    with False "1.IH" have "0 < (a div 2) div 2 ^ shift53 (a div 2)" by simp
    moreover have "shift53 a = Suc (shift53 (a div 2))"
      using False by (subst shift53.simps) simp
    ultimately show ?thesis
      by (simp add: zdiv_zmult2_eq)
  qed
qed

lemma to_Number_exact: "\<bar>x\<bar> \<le> 2 ^ 53 \<Longrightarrow> to_Number x = x"
proof (cases "\<bar>x\<bar> < 2 ^ 53")
  case True
  then show ?thesis
    by (simp add: to_Number_def shift53_small Let_def mult_sgn_abs)
next
  case False
  assume "\<bar>x\<bar> \<le> 2 ^ 53"
  with False have a: "\<bar>x\<bar> = 2 ^ 53" by simp
  have s: "shift53 (2 ^ 53) = 1"
    by (subst shift53.simps) (simp add: shift53_small)
  have "to_Number x = sgn x * \<bar>x\<bar>"
    unfolding to_Number_def a s Let_def by simp
  then show ?thesis by (simp add: mult_sgn_abs)
qed

lemma to_Number_nonpos_iff: "to_Number x \<le> 0 \<longleftrightarrow> x \<le> 0"
proof (cases "x = 0")
  case True
  then show ?thesis by (simp add: to_Number_def Let_def)
next
  case False
  define p :: int where "p = 2 ^ shift53 \<bar>x\<bar>"
  define q where "q = \<bar>x\<bar> div p"
  define r where "r = \<bar>x\<bar> mod p"
  define q' where "q' = (if p < 2 * r \<or> (2 * r = p \<and> odd q) then q + 1 else q)"
  have "0 < q" unfolding q_def p_def using False by (intro shift53_pos_quotient) simp
  then have "0 < q'" by (simp add: q'_def)
  moreover have "0 < p" by (simp add: p_def)
  ultimately have pos: "0 < q' * p" by simp
  have t: "to_Number x = sgn x * (q' * p)"
    by (simp add: to_Number_def Let_def p_def q_def r_def q'_def)
  show ?thesis
  proof (cases "x < 0")
    case True
    with pos t show ?thesis by simp
  next
    case False
    with \<open>x \<noteq> 0\<close> have "0 < x" by simp
    with pos t show ?thesis by simp
  qed
qed

lemma foldl_js_add_exact:
  "\<bar>s\<bar> + sum_list (map abs xs) \<le> 2 ^ 53 \<Longrightarrow> foldl js_add s xs = s + sum_list xs"
proof (induction xs arbitrary: s)
  case Nil
  show ?case by simp
next
  case (Cons x xs)
  have nn: "0 \<le> sum_list (map abs xs)" by (rule sum_list_nonneg) auto
  from Cons.prems nn have "\<bar>s + x\<bar> \<le> 2 ^ 53" by simp
  then have e: "js_add s x = s + x" by (simp add: js_add_def to_Number_exact)
  from Cons.prems have "\<bar>s + x\<bar> + sum_list (map abs xs) \<le> 2 ^ 53" by simp
  with Cons.IH [of "s + x"] e show ?case by simp
qed

subsection \<open>Day keys\<close>

text \<open>A day key contains a hyphen, so it is never an array index.\<close>

lemma digit_in: "digit n \<in> set ''0123456789''"
proof -
  have "nat (n mod 10) < length ''0123456789''" by simp
  then show ?thesis unfolding digit_def by (rule nth_mem)
qed

lemma digit_not_T: "digit n \<noteq> CHR ''T''"
proof
  assume "digit n = CHR ''T''"
  with digit_in [of n] have "CHR ''T'' \<in> set ''0123456789''" by (simp only:)
  then show False by simp
qed

lemma digit_not_T': "CHR ''T'' \<noteq> digit n"
  using digit_not_T [of n] by (rule not_sym)

lemma year_string_no_T: "CHR ''T'' \<notin> set (year_string y)"
  by (simp add: year_string_def pad6_def pad4_def pad3_def pad2_def digit_not_T digit_not_T')

lemma dash_in_day_key: "CHR ''-'' \<in> set (day_key e)"
proof -
  obtain y m d where c: "civil_from_days (Day (date_of_expense e)) = (y, m, d)"
    by (cases "civil_from_days (Day (date_of_expense e))") auto
  have "\<exists>rest. toISOString (date_of_expense e) = year_string y @ CHR ''-'' # rest"
    by (simp add: toISOString_def c Let_def)
  then obtain rest where r: "toISOString (date_of_expense e) = year_string y @ CHR ''-'' # rest"
    by blast
  have "takeWhile (\<lambda>c. c \<noteq> CHR ''T'') (year_string y @ CHR ''-'' # rest)
        = year_string y @ takeWhile (\<lambda>c. c \<noteq> CHR ''T'') (CHR ''-'' # rest)"
    using year_string_no_T [of y] by (intro takeWhile_append2) auto
  then show ?thesis
    by (simp add: day_key_def split_T_0_def r)
qed

lemma array_index_no_dash: "is_array_index s \<Longrightarrow> CHR ''-'' \<notin> set s"
proof
  assume a: "is_array_index s" and m: "CHR ''-'' \<in> set s"
  from a have "\<forall>c \<in> set s. c \<in> set ''0123456789''"
    unfolding is_array_index_def by (elim conjE)
  from this m have "CHR ''-'' \<in> set ''0123456789''" by (rule bspec)
  then show False by simp
qed

lemma day_key_not_index: "\<not> is_array_index (day_key e)"
  using dash_in_day_key array_index_no_dash by blast

subsection \<open>Sorting\<close>

lemma by_date_desc_le: "by_date_desc a b \<le> 0 \<longleftrightarrow> date_of_expense b \<le> date_of_expense a"
  by (simp add: by_date_desc_def js_sub_def to_Number_nonpos_iff)

lemma mset_insert_by: "mset (insert_by cmp x ys) = add_mset x (mset ys)"
  by (induction ys) auto

lemma mset_Array_sort: "mset (Array_sort cmp xs) = mset xs"
  by (induction xs) (auto simp: Array_sort_def mset_insert_by)

lemma set_insert_by: "set (insert_by cmp x ys) = insert x (set ys)"
  by (induction ys) auto

lemma sorted_insert_by:
  "sorted_wrt (\<lambda>a b. date_of_expense b \<le> date_of_expense a) ys \<Longrightarrow>
   sorted_wrt (\<lambda>a b. date_of_expense b \<le> date_of_expense a) (insert_by by_date_desc x ys)"
proof (induction ys)
  case Nil
  show ?case by simp
next
  case (Cons y ys)
  show ?case
  proof (cases "by_date_desc x y \<le> 0")
    case True
    then have "date_of_expense y \<le> date_of_expense x" by (simp add: by_date_desc_le)
    with True Cons.prems show ?thesis by fastforce
  next
    case False
    then have "date_of_expense x \<le> date_of_expense y" by (simp add: by_date_desc_le)
    with False Cons show ?thesis by (auto simp: set_insert_by)
  qed
qed

lemma sorted_Array_sort:
  "sorted_wrt (\<lambda>a b. date_of_expense b \<le> date_of_expense a) (Array_sort by_date_desc xs)"
proof (induction xs)
  case Nil
  show ?case by (simp add: Array_sort_def)
next
  case (Cons x xs)
  then show ?case
    using sorted_insert_by [of "Array_sort by_date_desc xs" x] by (simp add: Array_sort_def)
qed

subsection \<open>The grouping in closed form\<close>

lemma obj_modify_keys: "map fst (obj_modify obj k f) = map fst obj"
  by (induction obj) (auto simp: obj_modify_def)

lemma obj_modify_lookup:
  "map_of (obj_modify obj k f) k' = (if k' = k then map_option f (map_of obj k) else map_of obj k')"
  by (induction obj) (auto simp: obj_modify_def)

lemma obj_set_new: "map_of obj k = None \<Longrightarrow> obj_set obj k v = obj @ [(k, v)]"
  by (simp add: obj_set_def map_of_eq_None_iff)

lemma group_step_keys:
  "map fst (group_step acc e) =
     (if day_key e \<in> set (map fst acc) then map fst acc else map fst acc @ [day_key e])"
proof (cases "map_of acc (day_key e)")
  case None
  then have "day_key e \<notin> set (map fst acc)" by (simp add: map_of_eq_None_iff)
  with None show ?thesis
    by (simp add: group_step_def Let_def obj_get_def obj_modify_keys obj_set_new)
next
  case (Some g)
  then have "day_key e \<in> set (map fst acc)"
    by (metis map_of_eq_None_iff option.distinct(1) set_map)
  with Some show ?thesis
    by (simp add: group_step_def Let_def obj_get_def obj_modify_keys)
qed

lemma group_step_lookup:
  "map_of (group_step acc e) k =
     (if k = day_key e
      then (case map_of acc k of
              None \<Rightarrow> Some \<lparr>data_expenses = [e], total_expense = js_add 0 (amount e)\<rparr>
            | Some g \<Rightarrow> Some \<lparr>data_expenses = data_expenses g @ [e],
                               total_expense = js_add (total_expense g) (amount e)\<rparr>)
      else map_of acc k)"
proof (cases "map_of acc (day_key e)")
  case None
  then show ?thesis
    by (simp add: group_step_def Let_def obj_get_def obj_modify_lookup obj_set_new map_add_def
        split: option.split)
next
  case (Some g)
  then show ?thesis
    by (simp add: group_step_def Let_def obj_get_def obj_modify_lookup)
qed

lemma first_seen_snoc:
  "first_seen (xs @ [x]) = (if x \<in> set xs then first_seen xs else first_seen xs @ [x])"
  by (simp add: first_seen_def)

lemma set_first_seen [simp]: "set (first_seen xs) = set xs"
  by (simp add: first_seen_def)

lemma distinct_first_seen [simp]: "distinct (first_seen xs)"
  by (simp add: first_seen_def)

lemma groupedExpenses_snoc: "groupedExpenses (es @ [e]) = group_step (groupedExpenses es) e"
  by (simp add: groupedExpenses_def)

lemma grouped_keys: "map fst (groupedExpenses es) = first_seen (map day_key es)"
proof (induction es rule: rev_induct)
  case Nil
  show ?case by (simp add: groupedExpenses_def first_seen_def)
next
  case (snoc e es)
  then show ?case
    by (simp add: groupedExpenses_snoc group_step_keys first_seen_snoc)
qed

lemma grouped_lookup:
  "map_of (groupedExpenses es) k =
     (if k \<in> day_key ` set es
      then Some \<lparr>data_expenses = day_records k es,
                 total_expense = foldl js_add 0 (map amount (day_records k es))\<rparr>
      else None)"
proof (induction es rule: rev_induct)
  case Nil
  show ?case by (simp add: groupedExpenses_def)
next
  case (snoc e es)
  show ?case
  proof (cases "k = day_key e")
    case False
    with snoc show ?thesis
      by (simp add: groupedExpenses_snoc group_step_lookup day_records_def)
  next
    case True
    show ?thesis
    proof (cases "k \<in> day_key ` set es")
      case True
      with snoc \<open>k = day_key e\<close> show ?thesis
        by (simp add: groupedExpenses_snoc group_step_lookup day_records_def)
    next
      case False
      then have "filter (\<lambda>x. day_key x = k) es = []"
        by (auto simp: filter_empty_conv)
      with False snoc \<open>k = day_key e\<close> show ?thesis
        by (simp add: groupedExpenses_snoc group_step_lookup day_records_def)
    qed
  qed
qed

lemma filter_all: "(\<And>x. x \<in> set xs \<Longrightarrow> P x) \<Longrightarrow> filter P xs = xs"
  by (induction xs) auto

lemma grouped_Object_keys: "Object_keys (groupedExpenses es) = first_seen (map day_key es)"
proof -
  have a: "filter is_array_index (first_seen (map day_key es)) = []"
    by (auto simp: filter_empty_conv day_key_not_index)
  have b: "filter (\<lambda>k. \<not> is_array_index k) (first_seen (map day_key es))
           = first_seen (map day_key es)"
    by (rule filter_all) (auto simp: day_key_not_index)
  show ?thesis
    by (simp add: Object_keys_def grouped_keys a b)
qed

text \<open>
  The reply of the aggregation: one entry per day key in first-seen order, holding the
  records of the day sorted by the comparator and their running total.
\<close>

lemma aggregate_eq:
  "aggregate es =
     map (\<lambda>k. \<lparr>data_expenses = Array_sort by_date_desc (day_records k es),
                total_expense = foldl js_add 0 (map amount (day_records k es)),
                date_of_expenses = k\<rparr>)
       (first_seen (map day_key es))"
proof -
  have "map (\<lambda>date. case obj_get (groupedExpenses es) date of
                       None \<Rightarrow> []
                     | Some g \<Rightarrow>
                         [\<lparr>data_expenses = Array_sort by_date_desc (data_expenses g),
                           total_expense = total_expense g,
                           date_of_expenses = date\<rparr>])
          (first_seen (map day_key es))
        = map (\<lambda>k. [\<lparr>data_expenses = Array_sort by_date_desc (day_records k es),
                total_expense = foldl js_add 0 (map amount (day_records k es)),
                date_of_expenses = k\<rparr>]) (first_seen (map day_key es))"
    by (rule map_cong) (auto simp: obj_get_def grouped_lookup)
  then show ?thesis
    unfolding aggregate_def day_entries_def grouped_Object_keys
    by (simp only: concat_map_singleton)
qed

lemma aggregate_keys: "map date_of_expenses (aggregate es) = first_seen (map day_key es)"
  by (simp add: aggregate_eq comp_def)

lemma in_aggregate_iff:
  "b \<in> set (aggregate es) \<longleftrightarrow>
     (\<exists>k \<in> day_key ` set es.
        b = \<lparr>data_expenses = Array_sort by_date_desc (day_records k es),
             total_expense = foldl js_add 0 (map amount (day_records k es)),
             date_of_expenses = k\<rparr>)"
  by (auto simp: aggregate_eq)

lemma sum_list_map_mset_cong:
  fixes f :: "'a \<Rightarrow> int"
  assumes "mset xs = mset ys"
  shows "sum_list (map f xs) = sum_list (map f ys)"
proof -
  have "sum_list (map f xs) = sum_mset (image_mset f (mset xs))"
    by (metis mset_map sum_mset_sum_list)
  also have "\<dots> = sum_mset (image_mset f (mset ys))" by (simp add: assms)
  also have "\<dots> = sum_list (map f ys)" by (metis mset_map sum_mset_sum_list)
  finally show ?thesis .
qed

lemma mset_day_records: "mset es' = mset es \<Longrightarrow> mset (day_records k es') = mset (day_records k es)"
  by (simp add: day_records_def)

lemma sum_list_mset_absent:
  "k0 \<notin> set ks \<Longrightarrow> sum_list (map (\<lambda>k. if k0 = k then {#e#} else {#}) ks) = {#}"
  by (induction ks) auto

lemma sum_list_mset_delta:
  assumes "distinct ks" and "k0 \<in> set ks"
  shows "sum_list (map (\<lambda>k. if k0 = k then {#e#} else {#}) ks) = {#e#}"
  using assms by (induction ks) (auto simp: sum_list_mset_absent)

lemma sum_list_mset_none:
  "sum_list (map (\<lambda>k. ({#} :: 'a multiset)) ks) = {#}"
  by (induction ks) auto

lemma partition_by_key:
  assumes "distinct ks" and "day_key ` set es \<subseteq> set ks"
  shows "sum_list (map (\<lambda>k. mset (day_records k es)) ks) = mset es"
  using assms(2)
proof (induction es)
  case Nil
  show ?case by (simp add: day_records_def sum_list_mset_none)
next
  case (Cons e es)
  have "(\<lambda>k. mset (day_records k (e # es)))
        = (\<lambda>k. (if day_key e = k then {#e#} else {#}) + mset (day_records k es))"
    by (auto simp: day_records_def)
  then have "sum_list (map (\<lambda>k. mset (day_records k (e # es))) ks)
        = sum_list (map (\<lambda>k. if day_key e = k then {#e#} else {#}) ks)
          + sum_list (map (\<lambda>k. mset (day_records k es)) ks)"
    by (simp add: sum_list_addf)
  also have "\<dots> = {#e#} + mset es"
    using Cons assms(1) by (simp add: sum_list_mset_delta)
  finally show ?case by simp
qed

lemma mset_aggregate: "mset (concat (map data_expenses (aggregate es))) = mset es"
proof -
  have "mset (concat (map data_expenses (aggregate es)))
        = sum_list (map (\<lambda>k. mset (day_records k es)) (first_seen (map day_key es)))"
    by (simp add: mset_concat aggregate_eq comp_def mset_Array_sort)
  also have "\<dots> = mset es"
    by (rule partition_by_key) auto
  finally show ?thesis .
qed

lemma first_pos_map: "first_pos k es = length (takeWhile (\<lambda>x. x \<noteq> k) (map day_key es))"
  by (simp add: first_pos_def takeWhile_map comp_def)

lemma takeWhile_neq_less: "k \<in> set xs \<Longrightarrow> length (takeWhile (\<lambda>x. x \<noteq> k) xs) < length xs"
  by (induction xs) auto

lemma takeWhile_neq_snoc_in:
  "k \<in> set xs \<Longrightarrow> takeWhile (\<lambda>x. x \<noteq> k) (xs @ ys) = takeWhile (\<lambda>x. x \<noteq> k) xs"
  by (induction xs) auto

lemma takeWhile_neq_snoc_new:
  "k \<notin> set xs \<Longrightarrow> length (takeWhile (\<lambda>x. x \<noteq> k) (xs @ [k])) = length xs"
  by (induction xs) auto

lemma first_seen_positions:
  "sorted_wrt (<) (map (\<lambda>k. length (takeWhile (\<lambda>x. x \<noteq> k) xs)) (first_seen xs))"
proof (induction xs rule: rev_induct)
  case Nil
  show ?case by (simp add: first_seen_def)
next
  case (snoc x xs)
  have same: "map (\<lambda>k. length (takeWhile (\<lambda>x. x \<noteq> k) (xs @ [x]))) (first_seen xs)
              = map (\<lambda>k. length (takeWhile (\<lambda>x. x \<noteq> k) xs)) (first_seen xs)"
    by (rule map_cong) (simp_all add: takeWhile_neq_snoc_in)
  show ?case
  proof (cases "x \<in> set xs")
    case True
    with snoc show ?thesis by (simp add: first_seen_snoc same)
  next
    case False
    have "\<forall>k \<in> set (first_seen xs). length (takeWhile (\<lambda>x. x \<noteq> k) xs) < length xs"
      by (simp add: takeWhile_neq_less)
    with False snoc show ?thesis
      by (simp add: first_seen_snoc sorted_wrt_append same takeWhile_neq_snoc_new)
  qed
qed

subsection \<open>Per-day totals\<close>

text \<open>
  Claim C1, as stated, fails on Numbers beyond the 53-bit significand: the three records
  of 2024-03-05 with the amounts \<open>2 ^ 53\<close>, 1 and 1 get the total \<open>2 ^ 53\<close> when the
  large amount comes first, each addition of 1 being rounded away, and the total
  \<open>2 ^ 53 + 2\<close>, which is their arithmetic sum, when it comes last.
\<close>

theorem per_day_total_counterexample:
  "mset [small_expense_a, small_expense_b, big_expense]
     = mset [big_expense, small_expense_a, small_expense_b] \<and>
   map date_of_expenses (aggregate [big_expense, small_expense_a, small_expense_b])
     = [''2024-03-05''] \<and>
   map total_expense (aggregate [big_expense, small_expense_a, small_expense_b])
     = [9007199254740992] \<and>
   map total_expense (aggregate [small_expense_a, small_expense_b, big_expense])
     = [9007199254740994] \<and>
   sum_list (map amount [big_expense, small_expense_a, small_expense_b]) = 9007199254740994"
proof (intro conjI)
  show "mset [small_expense_a, small_expense_b, big_expense]
     = mset [big_expense, small_expense_a, small_expense_b]" by simp
  show "map date_of_expenses (aggregate [big_expense, small_expense_a, small_expense_b])
     = [''2024-03-05'']" by code_simp
  show "map total_expense (aggregate [big_expense, small_expense_a, small_expense_b])
     = [9007199254740992]" by code_simp
  show "map total_expense (aggregate [small_expense_a, small_expense_b, big_expense])
     = [9007199254740994]" by code_simp
  show "sum_list (map amount [big_expense, small_expense_a, small_expense_b]) = 9007199254740994"
    by code_simp
qed

text \<open>
  Claim C1, amended: for every list of expense records and every day entry of the
  aggregation whose records have amounts with absolute values summing to at most
  \<open>2 ^ 53\<close>, the entry's \<open>total_expense\<close> is the arithmetic sum of the amounts of all
  records whose day key is the entry's key, and every permutation of the input has an
  entry with the same key and the same total.
\<close>

theorem per_day_total_exact:
  assumes "mset es' = mset es"
    and "b \<in> set (aggregate es)"
    and "sum_list (map (\<lambda>e. \<bar>amount e\<bar>) (day_records (date_of_expenses b) es)) \<le> 2 ^ 53"
  shows "total_expense b = sum_list (map amount (day_records (date_of_expenses b) es)) \<and>
         (\<exists>b' \<in> set (aggregate es').
            date_of_expenses b' = date_of_expenses b \<and> total_expense b' = total_expense b)"
proof -
  define k where "k = date_of_expenses b"
  from assms(2) have kin: "k \<in> day_key ` set es"
    and tb: "total_expense b = foldl js_add 0 (map amount (day_records k es))"
    by (auto simp: in_aggregate_iff k_def)
  have bound: "\<bar>0::int\<bar> + sum_list (map abs (map amount (day_records k es))) \<le> 2 ^ 53"
    using assms(3) by (simp add: k_def comp_def)
  have t1: "total_expense b = sum_list (map amount (day_records k es))"
    using foldl_js_add_exact [OF bound] tb by simp
  have m: "mset (day_records k es') = mset (day_records k es)"
    using assms(1) by (rule mset_day_records)
  have "sum_list (map (\<lambda>e. \<bar>amount e\<bar>) (day_records k es'))
        = sum_list (map (\<lambda>e. \<bar>amount e\<bar>) (day_records k es))"
    using m by (rule sum_list_map_mset_cong)
  with assms(3) have bound': "\<bar>0::int\<bar> + sum_list (map abs (map amount (day_records k es'))) \<le> 2 ^ 53"
    by (simp add: k_def comp_def)
  define b' where "b' = \<lparr>data_expenses = Array_sort by_date_desc (day_records k es'),
             total_expense = foldl js_add 0 (map amount (day_records k es')),
             date_of_expenses = k\<rparr>"
  have "set es' = set es" using assms(1) by (rule mset_eq_setD)
  with kin have "b' \<in> set (aggregate es')"
    unfolding in_aggregate_iff b'_def by blast
  moreover have "date_of_expenses b' = k" by (simp add: b'_def)
  moreover have "total_expense b' = sum_list (map amount (day_records k es'))"
    using foldl_js_add_exact [OF bound'] by (simp add: b'_def)
  moreover have "sum_list (map amount (day_records k es')) = sum_list (map amount (day_records k es))"
    using m by (rule sum_list_map_mset_cong)
  ultimately show ?thesis using t1 unfolding k_def by auto
qed

text \<open>
  The example of the specification: the entry of 2024-03-05 has the total 50, in the
  given order and in the reversed one.
\<close>

theorem per_day_total_exact_witness:
  "mset [march6_09h, march5_18h, march5_10h] = mset [march5_10h, march5_18h, march6_09h] \<and>
   hd (aggregate [march5_10h, march5_18h, march6_09h])
     \<in> set (aggregate [march5_10h, march5_18h, march6_09h]) \<and>
   sum_list (map (\<lambda>e. \<bar>amount e\<bar>)
     (day_records (date_of_expenses (hd (aggregate [march5_10h, march5_18h, march6_09h])))
        [march5_10h, march5_18h, march6_09h])) \<le> 2 ^ 53 \<and>
   total_expense (hd (aggregate [march5_10h, march5_18h, march6_09h])) = 50 \<and>
   (\<exists>b' \<in> set (aggregate [march6_09h, march5_18h, march5_10h]).
      date_of_expenses b' = date_of_expenses (hd (aggregate [march5_10h, march5_18h, march6_09h])) \<and>
      total_expense b' = total_expense (hd (aggregate [march5_10h, march5_18h, march6_09h])))"
proof -
  have h1: "mset [march6_09h, march5_18h, march5_10h] = mset [march5_10h, march5_18h, march6_09h]"
    by simp
  have h2: "hd (aggregate [march5_10h, march5_18h, march6_09h])
     \<in> set (aggregate [march5_10h, march5_18h, march6_09h])" by code_simp
  have h3: "sum_list (map (\<lambda>e. \<bar>amount e\<bar>)
     (day_records (date_of_expenses (hd (aggregate [march5_10h, march5_18h, march6_09h])))
        [march5_10h, march5_18h, march6_09h])) \<le> 2 ^ 53" by code_simp
  have s: "sum_list (map amount
     (day_records (date_of_expenses (hd (aggregate [march5_10h, march5_18h, march6_09h])))
        [march5_10h, march5_18h, march6_09h])) = 50" by code_simp
  note r = per_day_total_exact [OF h1 h2 h3]
  from r s have t: "total_expense (hd (aggregate [march5_10h, march5_18h, march6_09h])) = 50"
    by (simp only:)
  from r have e: "\<exists>b' \<in> set (aggregate [march6_09h, march5_18h, march5_10h]).
      date_of_expenses b' = date_of_expenses (hd (aggregate [march5_10h, march5_18h, march6_09h])) \<and>
      total_expense b' = total_expense (hd (aggregate [march5_10h, march5_18h, march6_09h]))"
    by (rule conjunct2)
  show ?thesis by (intro conjI h1 h2 h3 t e)
qed

subsection \<open>Partition\<close>

text \<open>
  Claim C2: the day entries partition the input. The records of all entries together are
  the input records as a multiset, the entries have pairwise different keys, and every
  input record lies in exactly one entry.
\<close>

theorem grouping_is_partition:
  "mset (concat (map data_expenses (aggregate es))) = mset es \<and>
   distinct (map date_of_expenses (aggregate es)) \<and>
   (\<forall>e \<in> set es. \<exists>!b. b \<in> set (aggregate es) \<and> e \<in> set (data_expenses b))"
proof (intro conjI ballI)
  show "mset (concat (map data_expenses (aggregate es))) = mset es" by (rule mset_aggregate)
  show "distinct (map date_of_expenses (aggregate es))" by (simp add: aggregate_keys)
  fix e assume e: "e \<in> set es"
  define b where "b = \<lparr>data_expenses = Array_sort by_date_desc (day_records (day_key e) es),
             total_expense = foldl js_add 0 (map amount (day_records (day_key e) es)),
             date_of_expenses = day_key e\<rparr>"
  have in_b: "b \<in> set (aggregate es)"
    unfolding in_aggregate_iff b_def using e by blast
  have "e \<in> set (day_records (day_key e) es)" using e by (simp add: day_records_def)
  then have "e \<in># mset (Array_sort by_date_desc (day_records (day_key e) es))"
    by (simp add: mset_Array_sort)
  then have e_b: "e \<in> set (data_expenses b)" by (simp add: b_def)
  have uniq: "c = b" if c: "c \<in> set (aggregate es)" and ec: "e \<in> set (data_expenses c)" for c
  proof -
    from c obtain k where ck: "c = \<lparr>data_expenses = Array_sort by_date_desc (day_records k es),
             total_expense = foldl js_add 0 (map amount (day_records k es)),
             date_of_expenses = k\<rparr>"
      unfolding in_aggregate_iff by blast
    from ec have "e \<in># mset (Array_sort by_date_desc (day_records k es))" by (simp add: ck)
    then have "e \<in> set (day_records k es)" by (simp add: mset_Array_sort)
    then have "day_key e = k" by (simp add: day_records_def)
    then show ?thesis by (simp add: ck b_def)
  qed
  show "\<exists>!b. b \<in> set (aggregate es) \<and> e \<in> set (data_expenses b)"
    using in_b e_b uniq by blast
qed

text \<open>The record of 2024-03-05T10:00Z lies in exactly one entry of the example.\<close>

theorem grouping_is_partition_witness:
  "march5_10h \<in> set [march5_10h, march5_18h, march6_09h] \<and>
   mset (concat (map data_expenses (aggregate [march5_10h, march5_18h, march6_09h])))
     = mset [march5_10h, march5_18h, march6_09h] \<and>
   (\<exists>!b. b \<in> set (aggregate [march5_10h, march5_18h, march6_09h]) \<and>
         march5_10h \<in> set (data_expenses b))"
proof -
  have h: "march5_10h \<in> set [march5_10h, march5_18h, march6_09h]" by simp
  from grouping_is_partition [of "[march5_10h, march5_18h, march6_09h]"] h
  show ?thesis by blast
qed

subsection \<open>Order inside an entry\<close>

text \<open>
  Claim C3: whatever the order of the input, the records of every day entry are in
  descending order of \<open>date_of_expense\<close>.
\<close>

theorem buckets_sorted_descending:
  "\<forall>b \<in> set (aggregate es).
     sorted_wrt (\<lambda>x y. date_of_expense y \<le> date_of_expense x) (data_expenses b)"
  by (auto simp: in_aggregate_iff sorted_Array_sort)

text \<open>The input here is ascending, and the entry of 2024-03-05 lists 18:00 before 10:00.\<close>

theorem buckets_sorted_descending_witness:
  "hd (aggregate [march5_10h, march5_18h, march6_09h])
     \<in> set (aggregate [march5_10h, march5_18h, march6_09h]) \<and>
   map expense_id (data_expenses (hd (aggregate [march5_10h, march5_18h, march6_09h])))
     = [''e2'', ''e1''] \<and>
   sorted_wrt (\<lambda>x y. date_of_expense y \<le> date_of_expense x)
     (data_expenses (hd (aggregate [march5_10h, march5_18h, march6_09h])))"
proof -
  have h: "hd (aggregate [march5_10h, march5_18h, march6_09h])
     \<in> set (aggregate [march5_10h, march5_18h, march6_09h])" by code_simp
  have ids: "map expense_id (data_expenses (hd (aggregate [march5_10h, march5_18h, march6_09h])))
     = [''e2'', ''e1'']" by code_simp
  from buckets_sorted_descending [of "[march5_10h, march5_18h, march6_09h]"] h ids
  show ?thesis by blast
qed

subsection \<open>Order of the entries\<close>

text \<open>
  Claim C4: the day entries come in first-seen order of their keys. The keys of the
  reply are the distinct day keys of the input in the order of their first occurrence,
  and one entry precedes another exactly when the first input record with its key
  precedes the first input record with the other key.
\<close>

theorem buckets_in_first_seen_order:
  "map date_of_expenses (aggregate es) = first_seen (map day_key es) \<and>
   (\<forall>i < length (aggregate es). \<forall>j < length (aggregate es).
      i < j \<longleftrightarrow>
      first_pos (date_of_expenses (aggregate es ! i)) es
        < first_pos (date_of_expenses (aggregate es ! j)) es)"
proof (intro conjI allI impI)
  show keys: "map date_of_expenses (aggregate es) = first_seen (map day_key es)"
    by (rule aggregate_keys)
  fix i j assume i: "i < length (aggregate es)" and j: "j < length (aggregate es)"
  define ps where "ps = map (\<lambda>b. first_pos (date_of_expenses b) es) (aggregate es)"
  have "ps = map (\<lambda>k. first_pos k es) (map date_of_expenses (aggregate es))"
    by (simp add: ps_def comp_def)
  then have "ps = map (\<lambda>k. length (takeWhile (\<lambda>x. x \<noteq> k) (map day_key es)))
                    (first_seen (map day_key es))"
    by (simp add: keys first_pos_map)
  then have sorted: "sorted_wrt (<) ps" by (simp add: first_seen_positions)
  have len: "length ps = length (aggregate es)" by (simp add: ps_def)
  have pi: "ps ! i = first_pos (date_of_expenses (aggregate es ! i)) es"
    using i by (simp add: ps_def)
  have pj: "ps ! j = first_pos (date_of_expenses (aggregate es ! j)) es"
    using j by (simp add: ps_def)
  have "i < j \<longleftrightarrow> ps ! i < ps ! j"
  proof
    assume "i < j"
    with sorted j len show "ps ! i < ps ! j" by (simp add: sorted_wrt_nth_less)
  next
    assume lt: "ps ! i < ps ! j"
    show "i < j"
    proof (rule ccontr)
      assume "\<not> i < j"
      then have "j = i \<or> j < i" by auto
      then show False
      proof
        assume "j = i" with lt show False by simp
      next
        assume "j < i"
        with sorted i len have "ps ! j < ps ! i" by (simp add: sorted_wrt_nth_less)
        with lt show False by simp
      qed
    qed
  qed
  then show "i < j \<longleftrightarrow>
      first_pos (date_of_expenses (aggregate es ! i)) es
        < first_pos (date_of_expenses (aggregate es ! j)) es"
    by (simp add: pi pj)
qed

text \<open>With 2024-03-06 first in the input, its entry comes first in the reply.\<close>

theorem buckets_in_first_seen_order_witness:
  "0 < length (aggregate [march6_09h, march5_10h, march5_18h]) \<and>
   1 < length (aggregate [march6_09h, march5_10h, march5_18h]) \<and>
   map date_of_expenses (aggregate [march6_09h, march5_10h, march5_18h])
     = [''2024-03-06'', ''2024-03-05''] \<and>
   first_pos (date_of_expenses (aggregate [march6_09h, march5_10h, march5_18h] ! 0))
       [march6_09h, march5_10h, march5_18h]
     < first_pos (date_of_expenses (aggregate [march6_09h, march5_10h, march5_18h] ! 1))
       [march6_09h, march5_10h, march5_18h]"
proof -
  have h0: "0 < length (aggregate [march6_09h, march5_10h, march5_18h])" by code_simp
  have h1: "1 < length (aggregate [march6_09h, march5_10h, march5_18h])" by code_simp
  have k: "map date_of_expenses (aggregate [march6_09h, march5_10h, march5_18h])
     = [''2024-03-06'', ''2024-03-05'']" by code_simp
  from buckets_in_first_seen_order [of "[march6_09h, march5_10h, march5_18h]"] h0 h1
  have "(0::nat) < 1 \<longleftrightarrow>
      first_pos (date_of_expenses (aggregate [march6_09h, march5_10h, march5_18h] ! 0))
       [march6_09h, march5_10h, march5_18h]
     < first_pos (date_of_expenses (aggregate [march6_09h, march5_10h, march5_18h] ! 1))
       [march6_09h, march5_10h, march5_18h]" by blast
  with h0 h1 k show ?thesis by simp
qed

subsection \<open>The listing handlers\<close>

lemma aggregate_records_nonempty: "es \<noteq> [] \<Longrightarrow> concat (map data_expenses (aggregate es)) \<noteq> []"
proof
  assume "es \<noteq> []" and "concat (map data_expenses (aggregate es)) = []"
  then have "mset (concat (map data_expenses (aggregate es))) = {#}" by simp
  then have "mset es = {#}" by (simp only: mset_aggregate)
  with \<open>es \<noteq> []\<close> show False by simp
qed

lemma aggregate_entry_nonempty:
  "es \<noteq> [] \<Longrightarrow> \<exists>b \<in> set (aggregate es). data_expenses b \<noteq> []"
  using aggregate_records_nonempty [of es] by simp

lemma get_root_cases:
  "get_root w d user =
     (case fst (Expense_find d user [Gte (startOfMonth w), Lte (endOfMonth w)] Desc) of
        Inl err \<Rightarrow> Inr \<lparr>status = 500, body = Message_error ''error get all expenses'' err\<rparr>
      | Inr es \<Rightarrow>
          if es = [] then Inr \<lparr>status = 404, body = Listed ''expense not found'' []\<rparr>
          else Inr \<lparr>status = 200, body = Grouped ''success get all expenses'' (aggregate es)\<rparr>,
      snd (Expense_find d user [Gte (startOfMonth w), Lte (endOfMonth w)] Desc))"
  by (simp add: get_root_def split: prod.splits sum.splits)

lemma get_month_cases:
  "get_month tz now d user month =
     (case fst (Expense_find d user
                  [Gte (new_Date tz (getFullYear tz now) (map_option (\<lambda>m. js_sub m 1) month) 1),
                   Lt (new_Date tz (getFullYear tz now) month 1)] Asc) of
        Inl err \<Rightarrow> Inr \<lparr>status = 500, body = Message ''error get all expenses''\<rparr>
      | Inr es \<Rightarrow>
          if es = [] then Inr \<lparr>status = 404, body = Listed ''expense not found'' []\<rparr>
          else Inr \<lparr>status = 200, body = Listed ''success get all expenses'' es\<rparr>,
      snd (Expense_find d user
                  [Gte (new_Date tz (getFullYear tz now) (map_option (\<lambda>m. js_sub m 1) month) 1),
                   Lt (new_Date tz (getFullYear tz now) month 1)] Asc))"
  by (simp add: get_month_def Let_def split: prod.splits sum.splits)

text \<open>
  Claim C5 fails on the code. The upper bound of the window is
  \<open>new Date(year, month + 1, 1)\<close>, the first instant of the next month, and the filter
  of \<open>router.get('/')\<close> compares with \<open>$lte\<close>. For a process loaded on 2024-03-15 the
  window ends at 2024-04-01T00:00:00.000Z, and an expense dated at that instant, which
  lies in April, is listed as an expense of the current month. The listing by month
  number compares with \<open>$lt\<close> and does not return it for month 3.
\<close>

theorem current_month_lists_next_month_start:
  "getCurrentMonthDateRange 0 mid_march
     = \<lparr>startOfMonth = Some 1709251200000, endOfMonth = Some 1711929600000\<rparr> \<and>
   toISOString mid_march = ''2024-03-15T12:00:00.000Z'' \<and>
   toISOString (date_of_expense april1_00h) = ''2024-04-01T00:00:00.000Z'' \<and>
   getMonth 0 mid_march = 2 \<and>
   getMonth 0 (date_of_expense april1_00h) = 3 \<and>
   fst (get_root (getCurrentMonthDateRange 0 mid_march) (sample_store [april1_00h] []) ''u1'')
     = Inr \<lparr>status = 200,
            body = Grouped ''success get all expenses''
                     [\<lparr>data_expenses = [april1_00h], total_expense = 12,
                       date_of_expenses = ''2024-04-01''\<rparr>]\<rparr> \<and>
   fst (get_month 0 mid_march (sample_store [april1_00h] []) ''u1'' (Some 3))
     = Inr \<lparr>status = 404, body = Listed ''expense not found'' []\<rparr>"
proof (intro conjI)
  show "getCurrentMonthDateRange 0 mid_march
     = \<lparr>startOfMonth = Some 1709251200000, endOfMonth = Some 1711929600000\<rparr>" by code_simp
  show "toISOString mid_march = ''2024-03-15T12:00:00.000Z''" by code_simp
  show "toISOString (date_of_expense april1_00h) = ''2024-04-01T00:00:00.000Z''" by code_simp
  show "getMonth 0 mid_march = 2" by code_simp
  show "getMonth 0 (date_of_expense april1_00h) = 3" by code_simp
  show "fst (get_root (getCurrentMonthDateRange 0 mid_march) (sample_store [april1_00h] []) ''u1'')
     = Inr \<lparr>status = 200,
            body = Grouped ''success get all expenses''
                     [\<lparr>data_expenses = [april1_00h], total_expense = 12,
                       date_of_expenses = ''2024-04-01''\<rparr>]\<rparr>" by code_simp
  show "fst (get_month 0 mid_march (sample_store [april1_00h] []) ''u1'' (Some 3))
     = Inr \<lparr>status = 404, body = Listed ''expense not found'' []\<rparr>" by code_simp
qed

text \<open>
  Claim C6: both listing handlers always reply; when the scoped query yields no record
  the reply is 404, and a reply with status 200 carries at least one expense record.
\<close>

theorem empty_listing_is_not_found:
  "(\<exists>r. fst (get_root w d user) = Inr r \<and>
        (fst (Expense_find d user [Gte (startOfMonth w), Lte (endOfMonth w)] Desc) = Inr []
           \<longrightarrow> status r = 404) \<and>
        (status r = 200 \<longrightarrow> payload_expenses (body r) \<noteq> [])) \<and>
   (\<exists>r. fst (get_month tz now d user month) = Inr r \<and>
        (fst (Expense_find d user
                [Gte (new_Date tz (getFullYear tz now) (map_option (\<lambda>m. js_sub m 1) month) 1),
                 Lt (new_Date tz (getFullYear tz now) month 1)] Asc) = Inr []
           \<longrightarrow> status r = 404) \<and>
        (status r = 200 \<longrightarrow> payload_expenses (body r) \<noteq> []))"
proof (rule conjI)
  show "\<exists>r. fst (get_root w d user) = Inr r \<and>
        (fst (Expense_find d user [Gte (startOfMonth w), Lte (endOfMonth w)] Desc) = Inr []
           \<longrightarrow> status r = 404) \<and>
        (status r = 200 \<longrightarrow> payload_expenses (body r) \<noteq> [])"
    by (cases "fst (Expense_find d user [Gte (startOfMonth w), Lte (endOfMonth w)] Desc)")
       (simp_all add: get_root_cases aggregate_entry_nonempty)
  show "\<exists>r. fst (get_month tz now d user month) = Inr r \<and>
        (fst (Expense_find d user
                [Gte (new_Date tz (getFullYear tz now) (map_option (\<lambda>m. js_sub m 1) month) 1),
                 Lt (new_Date tz (getFullYear tz now) month 1)] Asc) = Inr []
           \<longrightarrow> status r = 404) \<and>
        (status r = 200 \<longrightarrow> payload_expenses (body r) \<noteq> [])"
    by (cases "fst (Expense_find d user
                [Gte (new_Date tz (getFullYear tz now) (map_option (\<lambda>m. js_sub m 1) month) 1),
                 Lt (new_Date tz (getFullYear tz now) month 1)] Asc)")
       (simp_all add: get_month_cases)
qed

text \<open>
  A store whose only expense is dated in May, listed for a window and for a month
  number of March: both queries are empty and both replies are 404.
\<close>

theorem empty_listing_is_not_found_witness:
  "fst (Expense_find (sample_store [may10_10h] []) ''u1''
          [Gte (startOfMonth (getCurrentMonthDateRange 0 mid_march)),
           Lte (endOfMonth (getCurrentMonthDateRange 0 mid_march))] Desc) = Inr [] \<and>
   (\<exists>r. fst (get_root (getCurrentMonthDateRange 0 mid_march) (sample_store [may10_10h] []) ''u1'')
          = Inr r \<and> status r = 404) \<and>
   fst (Expense_find (sample_store [may10_10h] []) ''u1''
          [Gte (new_Date 0 (getFullYear 0 mid_march) (map_option (\<lambda>m. js_sub m 1) (Some 3)) 1),
           Lt (new_Date 0 (getFullYear 0 mid_march) (Some 3) 1)] Asc) = Inr [] \<and>
   (\<exists>r. fst (get_month 0 mid_march (sample_store [may10_10h] []) ''u1'' (Some 3)) = Inr r \<and>
        status r = 404)"
proof -
  have h1: "fst (Expense_find (sample_store [may10_10h] []) ''u1''
          [Gte (startOfMonth (getCurrentMonthDateRange 0 mid_march)),
           Lte (endOfMonth (getCurrentMonthDateRange 0 mid_march))] Desc) = Inr []"
    by code_simp
  have h2: "fst (Expense_find (sample_store [may10_10h] []) ''u1''
          [Gte (new_Date 0 (getFullYear 0 mid_march) (map_option (\<lambda>m. js_sub m 1) (Some 3)) 1),
           Lt (new_Date 0 (getFullYear 0 mid_march) (Some 3) 1)] Asc) = Inr []"
    by code_simp
  note t = empty_listing_is_not_found [of "getCurrentMonthDateRange 0 mid_march"
      "sample_store [may10_10h] []" "''u1''" 0 mid_march "Some 3"]
  from t h1 have r1: "\<exists>r. fst (get_root (getCurrentMonthDateRange 0 mid_march)
        (sample_store [may10_10h] []) ''u1'') = Inr r \<and> status r = 404"
    by blast
  from t h2 have r2: "\<exists>r. fst (get_month 0 mid_march (sample_store [may10_10h] []) ''u1'' (Some 3))
        = Inr r \<and> status r = 404"
    by blast
  show ?thesis by (intro conjI h1 h2 r1 r2)
qed

subsection \<open>The module constants\<close>

lemma serve_all_snoc:
  "serve_all tz mg w (rs @ [(now, r)]) d =
     (case serve_all tz mg w rs d of
        (replies, d') \<Rightarrow>
          (case serve tz mg w now r d' of (reply, d'') \<Rightarrow> (replies @ [reply], d'')))"
  by (induction rs arbitrary: d) (auto split: prod.splits)

lemma get_root_journal:
  "journal (snd (get_root w d user)) =
     (if startOfMonth w = None \<or> endOfMonth w = None then journal d
      else journal d @ [Op_find user [Gte (startOfMonth w), Lte (endOfMonth w)] Desc])"
  by (auto simp: get_root_def Expense_find_def record_op_def Let_def split: prod.splits sum.splits)

text \<open>
  Claim C9: the month window of \<open>router.get('/')\<close> is computed once, from the clock
  reading \<open>t0\<close> at which the module is loaded. After any history of requests and at any
  clock reading \<open>now\<close>, a \<open>GET /\<close> request is answered with the window of \<open>t0\<close>, and the
  one query it sends carries the bounds of that window.
\<close>

theorem month_window_fixed_at_load:
  "process tz mg t0 (rs @ [(now, GET_root user)]) d =
     (case process tz mg t0 rs d of
        (replies, d') \<Rightarrow>
          (case get_root (getCurrentMonthDateRange tz t0) d' user of
             (reply, d'') \<Rightarrow> (replies @ [reply], d''))) \<and>
   journal (snd (get_root (getCurrentMonthDateRange tz t0) d1 user)) =
     (if startOfMonth (getCurrentMonthDateRange tz t0) = None \<or>
         endOfMonth (getCurrentMonthDateRange tz t0) = None
      then journal d1
      else journal d1 @
           [Op_find user [Gte (startOfMonth (getCurrentMonthDateRange tz t0)),
                          Lte (endOfMonth (getCurrentMonthDateRange tz t0))] Desc])"
  by (simp add: process_def serve_all_snoc get_root_journal)

text \<open>
  A process loaded in March 2024 and asked in May 2024: the query still carries the
  bounds of March, and the reply lists the expense of March and not the one of May.
\<close>

theorem month_window_fixed_at_load_witness:
  "process 0 sample_mongoose mid_march [(mid_may, GET_root ''u1'')]
     (sample_store [march5_10h, may10_10h] []) =
   ([Inr \<lparr>status = 200,
           body = Grouped ''success get all expenses''
                    [\<lparr>data_expenses = [march5_10h], total_expense = 20,
                      date_of_expenses = ''2024-03-05''\<rparr>]\<rparr>],
    \<lparr>expense_docs = [march5_10h, may10_10h], category_docs = [], failing = False,
      journal = [Op_find ''u1'' [Gte (Some 1709251200000), Lte (Some 1711929600000)] Desc]\<rparr>)"
proof -
  have "process 0 sample_mongoose mid_march ([] @ [(mid_may, GET_root ''u1'')])
          (sample_store [march5_10h, may10_10h] []) =
        (case process 0 sample_mongoose mid_march [] (sample_store [march5_10h, may10_10h] []) of
           (replies, d') \<Rightarrow>
             (case get_root (getCurrentMonthDateRange 0 mid_march) d' ''u1'' of
                (reply, d'') \<Rightarrow> (replies @ [reply], d'')))"
    using month_window_fixed_at_load
      [of 0 sample_mongoose mid_march "[]" mid_may "''u1''"
          "sample_store [march5_10h, may10_10h] []"]
    by (rule conjunct1)
  also have "\<dots> =
   ([Inr \<lparr>status = 200,
           body = Grouped ''success get all expenses''
                    [\<lparr>data_expenses = [march5_10h], total_expense = 20,
                      date_of_expenses = ''2024-03-05''\<rparr>]\<rparr>],
    \<lparr>expense_docs = [march5_10h, may10_10h], category_docs = [], failing = False,
      journal = [Op_find ''u1'' [Gte (Some 1709251200000), Lte (Some 1711929600000)] Desc]\<rparr>)"
    by code_simp
  finally show ?thesis by (simp only: append_Nil)
qed

subsection \<open>The update handler\<close>

lemma mutable_fields_absent:
  "(\<forall>k \<in> set mutable_fields. req_body k = None) \<longleftrightarrow>
     req_body ''amount'' = None \<and> req_body ''expense_name'' = None \<and>
     req_body ''date_of_expense'' = None \<and> req_body ''category_id'' = None"
  by (simp add: mutable_fields_def)

text \<open>
  Claim C7: for every PATCH request whose body contains none of the mutable fields, and
  whatever the validation middleware found, the handler replies with status 400 and
  returns the store as it was: no operation is sent to it.
\<close>

theorem patch_without_mutable_fields:
  assumes "\<forall>k \<in> set mutable_fields. req_body k = None"
  shows "\<exists>r. patch_by_id mg now d user eid errors req_body = (Inr r, d) \<and> status r = 400"
proof -
  from assms have "falsy (req_body ''amount'')" "falsy (req_body ''expense_name'')"
    "falsy (req_body ''date_of_expense'')" "falsy (req_body ''category_id'')"
    by (simp_all add: mutable_fields_absent)
  then show ?thesis by (simp add: patch_by_id_def)
qed

text \<open>A body that only holds a key \<open>note\<close>, with and without validation errors.\<close>

theorem patch_without_mutable_fields_witness:
  "patch_by_id sample_mongoose mid_march foreign_store ''u2'' ''e9'' [] [''note'' \<mapsto> JStr ''x'']
     = (Inr \<lparr>status = 400, body = Message ''at least one field must be filled''\<rparr>, foreign_store) \<and>
   (\<exists>r. patch_by_id sample_mongoose mid_march foreign_store ''u2'' ''e9'' [''invalid'']
           [''note'' \<mapsto> JStr ''x''] = (Inr r, foreign_store) \<and> status r = 400)"
proof -
  have h: "\<forall>k \<in> set mutable_fields. [''note'' \<mapsto> JStr ''x''] k = None"
    by (simp add: mutable_fields_def)
  have "\<exists>r. patch_by_id sample_mongoose mid_march foreign_store ''u2'' ''e9'' []
           [''note'' \<mapsto> JStr ''x''] = (Inr r, foreign_store) \<and> status r = 400"
    using h by (rule patch_without_mutable_fields)
  moreover have "fst (patch_by_id sample_mongoose mid_march foreign_store ''u2'' ''e9'' []
           [''note'' \<mapsto> JStr ''x''])
        = Inr \<lparr>status = 400, body = Message ''at least one field must be filled''\<rparr>"
    by (simp add: patch_by_id_def)
  ultimately have a: "patch_by_id sample_mongoose mid_march foreign_store ''u2'' ''e9'' []
       [''note'' \<mapsto> JStr ''x'']
     = (Inr \<lparr>status = 400, body = Message ''at least one field must be filled''\<rparr>, foreign_store)"
    by auto
  have b: "\<exists>r. patch_by_id sample_mongoose mid_march foreign_store ''u2'' ''e9'' [''invalid'']
           [''note'' \<mapsto> JStr ''x''] = (Inr r, foreign_store) \<and> status r = 400"
    using h by (rule patch_without_mutable_fields)
  show ?thesis by (intro conjI a b)
qed

lemma update_filter_without_created_by:
  "created_by e = None \<Longrightarrow> update_filter eid user e \<longleftrightarrow> expense_id e = eid"
  by (simp add: update_filter_def)

text \<open>
  Claim C8 fails on the code. The filter of the update tests the path \<open>created_by\<close> of
  the expense. Expenses bind their owner to \<open>user_id\<close>; \<open>created_by\<close> is the owner path
  of a category. An expense has nothing at that path, \<open>{ created_by: null }\<close> matches
  it, and the filter is left with the identifier alone. Here user \<open>u1\<close> updates an
  expense that belongs to \<open>u2\<close> and lies in a category owned by \<open>u2\<close>, while the read
  and the delete handler, which test \<open>user_id\<close>, answer 404 for the same identifier.
\<close>

theorem patch_reaches_foreign_expense:
  "user_id foreign_expense = ''u2'' \<and>
   category_docs foreign_store = [Category (category_id foreign_expense) (Some ''u2'')] \<and>
   update_filter ''e9'' ''u1'' foreign_expense \<and>
   patch_by_id sample_mongoose mid_march foreign_store ''u1'' ''e9'' [] [''amount'' \<mapsto> JNum 1]
     = (Inr \<lparr>status = 200,
             body = Single ''success update expense''
                      (foreign_expense\<lparr>amount := 1, updated_at := mid_march\<rparr>)\<rparr>,
        \<lparr>expense_docs = [foreign_expense\<lparr>amount := 1, updated_at := mid_march\<rparr>],
          category_docs = [Category ''c2'' (Some ''u2'')], failing = False,
          journal = [Op_findOneAndUpdate ''e9'' ''u1'']\<rparr>) \<and>
   fst (get_by_id foreign_store ''u1'' ''e9'')
     = Inr \<lparr>status = 404, body = Listed ''expense not found'' []\<rparr> \<and>
   delete_by_id foreign_store ''u1'' ''e9''
     = (Inr \<lparr>status = 404, body = Message ''expense not found''\<rparr>,
        \<lparr>expense_docs = [foreign_expense], category_docs = [Category ''c2'' (Some ''u2'')],
          failing = False, journal = [Op_findOneAndDelete ''e9'' ''u1'']\<rparr>)"
proof (intro conjI)
  show "user_id foreign_expense = ''u2''" by code_simp
  show "category_docs foreign_store = [Category (category_id foreign_expense) (Some ''u2'')]"
    by code_simp
  show "update_filter ''e9'' ''u1'' foreign_expense" by code_simp
  show "patch_by_id sample_mongoose mid_march foreign_store ''u1'' ''e9'' [] [''amount'' \<mapsto> JNum 1]
     = (Inr \<lparr>status = 200,
             body = Single ''success update expense''
                      (foreign_expense\<lparr>amount := 1, updated_at := mid_march\<rparr>)\<rparr>,
        \<lparr>expense_docs = [foreign_expense\<lparr>amount := 1, updated_at := mid_march\<rparr>],
          category_docs = [Category ''c2'' (Some ''u2'')], failing = False,
          journal = [Op_findOneAndUpdate ''e9'' ''u1'']\<rparr>)" by code_simp
  show "fst (get_by_id foreign_store ''u1'' ''e9'')
     = Inr \<lparr>status = 404, body = Listed ''expense not found'' []\<rparr>" by code_simp
  show "delete_by_id foreign_store ''u1'' ''e9''
     = (Inr \<lparr>status = 404, body = Message ''expense not found''\<rparr>,
        \<lparr>expense_docs = [foreign_expense], category_docs = [Category ''c2'' (Some ''u2'')],
          failing = False, journal = [Op_findOneAndDelete ''e9'' ''u1'']\<rparr>)" by code_simp
qed




end
